theory Spec2Isabelle
  imports Main
begin

section \<open>Strings\<close>

text \<open>
  Go strings are byte sequences; they are modelled as \<open>string\<close>. The helpers below are
  the functions of Go's \<open>strings\<close>, \<open>path\<close> and \<open>unicode\<close> packages that
  \<open>cmd/docgen/dst/dst.go\<close> calls and that work byte by byte. The three that follow
  Unicode, \<open>strings.ToLower\<close>, \<open>strings.EqualFold\<close> and \<open>strings.TrimSpace\<close>, are
  parameters of the environment; \<open>asciiToLower\<close>, \<open>asciiEqualFold\<close> and
  \<open>asciiTrimSpace\<close> below are what they compute on ASCII strings, and the example
  inputs, which are ASCII, use them.
\<close>

definition trimPrefix :: "string \<Rightarrow> string \<Rightarrow> string" where
  \<comment> \<open>\<open>strings.TrimPrefix(s, prefix)\<close>\<close>
  "trimPrefix s p = (if take (length p) s = p then drop (length p) s else s)"

definition hasSuffix :: "string \<Rightarrow> string \<Rightarrow> bool" where
  \<comment> \<open>\<open>strings.HasSuffix(s, suffix)\<close>\<close>
  "hasSuffix s p = (length p \<le> length s \<and> drop (length s - length p) s = p)"

fun containsStr :: "string \<Rightarrow> string \<Rightarrow> bool" where
  \<comment> \<open>\<open>strings.Contains(s, substr)\<close>\<close>
  "containsStr [] sub = (sub = [])"
| "containsStr (c # cs) sub = (take (length sub) (c # cs) = sub \<or> containsStr cs sub)"

definition countComma :: "string \<Rightarrow> nat" where
  \<comment> \<open>\<open>strings.Count(s, ",")\<close>\<close>
  "countComma s = length (filter (\<lambda>c. c = CHR '','') s)"

definition beforeComma :: "string \<Rightarrow> string" where
  \<comment> \<open>\<open>strings.Split(s, ",")[0]\<close>\<close>
  "beforeComma s = takeWhile (\<lambda>c. c \<noteq> CHR '','') s"

definition afterLastDot :: "string \<Rightarrow> string" where
  \<comment> \<open>\<open>if index := strings.LastIndex(s, "."); index != -1 { s = s[index+1:] }\<close>\<close>
  "afterLastDot s = rev (takeWhile (\<lambda>c. c \<noteq> CHR ''.'') (rev s))"

definition lowerChar :: "char \<Rightarrow> char" where
  "lowerChar c = (let n = (of_char c :: nat) in if 65 \<le> n \<and> n \<le> 90 then char_of (n + 32) else c)"

definition asciiToLower :: "string \<Rightarrow> string" where
  \<comment> \<open>\<open>strings.ToLower\<close> on an ASCII string\<close>
  "asciiToLower s = map lowerChar s"

definition asciiEqualFold :: "string \<Rightarrow> string \<Rightarrow> bool" where
  \<comment> \<open>\<open>strings.EqualFold\<close> on ASCII strings\<close>
  "asciiEqualFold a b = (asciiToLower a = asciiToLower b)"

definition isUpper :: "char \<Rightarrow> bool" where
  \<comment> \<open>\<open>unicode.IsUpper(rune(b))\<close> for a byte \<open>b\<close>: the upper-case letters of Latin-1\<close>
  "isUpper c = (let n = (of_char c :: nat) in
     (65 \<le> n \<and> n \<le> 90) \<or> (192 \<le> n \<and> n \<le> 222 \<and> n \<noteq> 215))"

definition isSpace :: "char \<Rightarrow> bool" where
  "isSpace c = (let n = (of_char c :: nat) in n = 32 \<or> (9 \<le> n \<and> n \<le> 13))"

definition asciiTrimSpace :: "string \<Rightarrow> string" where
  \<comment> \<open>\<open>strings.TrimSpace\<close> on an ASCII string\<close>
  "asciiTrimSpace s = rev (dropWhile isSpace (rev (dropWhile isSpace s)))"

definition trimQuote :: "string \<Rightarrow> string" where
  \<comment> \<open>\<open>strings.Trim(s, "\"")\<close>\<close>
  "trimQuote s = rev (dropWhile (\<lambda>c. c = CHR 0x22) (rev (dropWhile (\<lambda>c. c = CHR 0x22) s)))"

fun splitLines :: "string \<Rightarrow> string list" where
  \<comment> \<open>\<open>strings.Split(s, "\n")\<close>: never empty\<close>
  "splitLines [] = [[]]"
| "splitLines (c # cs) =
     (if c = CHR 0x0A then [] # splitLines cs
      else (case splitLines cs of [] \<Rightarrow> [[c]] | l # ls \<Rightarrow> (c # l) # ls))"

fun joinLines :: "string list \<Rightarrow> string" where
  \<comment> \<open>\<open>strings.Join(xs, "\n")\<close>\<close>
  "joinLines [] = []"
| "joinLines [l] = l"
| "joinLines (l # ls) = l @ [CHR 0x0A] @ joinLines ls"

definition pathBase :: "string \<Rightarrow> string" where
  \<comment> \<open>\<open>path.Base\<close>\<close>
  "pathBase p =
     (if p = [] then ''.''
      else (let p1 = rev (dropWhile (\<lambda>c. c = CHR ''/'') (rev p));
                p2 = rev (takeWhile (\<lambda>c. c \<noteq> CHR ''/'') (rev p1))
            in if p2 = [] then ''/'' else p2))"

definition wrapStructName :: "string \<Rightarrow> string \<Rightarrow> string" where
  "wrapStructName prefix suffix = (if prefix = [] then suffix else prefix @ ''.'' @ suffix)"

section \<open>The syntax tree\<close>

text \<open>
  The part of the \<open>dst\<close> syntax tree that the generator inspects. \<open>Ident.Obj.Decl\<close> is a
  pointer into the tree (type graphs may be cyclic), so it is an address into a store of
  type specifications. Start decorations (the leading comment lines) are string lists.
  A struct tag is held as the key/value pairs that \<open>reflect.StructTag\<close> reads from it.
\<close>

datatype object = Object (objName: string) (objDecl: nat)

datatype expr =
    Ident (identName: string) (identPath: string) (identObj: "object option")
  | ArrayType expr
  | StarExpr expr
  | MapType expr expr
  | SelectorExpr expr expr
  | StructType "dstField list"
  | InterfaceType
  | CompositeLit "expr list"
  | KeyValueExpr expr expr
  | BasicLit string
  | OtherExpr
and dstField =
    DstField (fNames: "string list") (fType: expr)
             (fTag: "(string \<times> string) list option") (fDecs: "string list")

record typeSpec =
  tsName :: string
  tsType :: "expr option"
  tsDecs :: "string list"

record valueSpec =
  vsNames :: "string list"
  vsValues :: "expr list"
  vsDecs :: "string list"

datatype spec = TypeSpecS typeSpec | ValueSpecS valueSpec | ImportSpecS

datatype token = TokCONST | TokVAR | TokTYPE | TokIMPORT

record genDecl =
  gdTok :: token
  gdDecs :: "string list"
  gdSpecs :: "spec list"

text \<open>
  A node handed to \<open>dst.Inspect\<close>. Every callback of the generator returns \<open>true\<close> and
  acts on \<open>*dst.GenDecl\<close> nodes only, so a file is the list of its general declarations
  in traversal order; the subtree of a type specification holds none.
\<close>

datatype node = FileNode "genDecl list" | TypeSpecNode typeSpec | GenDeclNode genDecl

fun inspectGenDecls :: "node \<Rightarrow> genDecl list" where
  "inspectGenDecls (FileNode gs) = gs"
| "inspectGenDecls (TypeSpecNode t) = []"
| "inspectGenDecls (GenDeclNode g) = [g]"

fun startDecs :: "node \<Rightarrow> string list" where
  "startDecs (FileNode gs) = []"
| "startDecs (TypeSpecNode t) = tsDecs t"
| "startDecs (GenDeclNode g) = gdDecs g"

datatype error = Panic | OutOfFuel | Fatal

definition tagGet :: "(string \<times> string) list \<Rightarrow> string \<Rightarrow> string" where
  \<comment> \<open>\<open>reflect.StructTag.Get\<close>: the value of the first pair with the key, else empty\<close>
  "tagGet tag key = (case map_of tag key of None \<Rightarrow> [] | Some v \<Rightarrow> v)"

section \<open>Enum groups\<close>

fun enumSpecs :: "spec list \<Rightarrow> error + string list" where
  "enumSpecs [] = Inr []"
| "enumSpecs (s # ss) =
     (case s of
        ValueSpecS v \<Rightarrow>
          (if vsNames v = [] then enumSpecs ss
           else if hd (vsNames v) = ''limit'' then enumSpecs ss
           else if vsDecs v = [] then Inl Panic
           else (case enumSpecs ss of
                   Inl e \<Rightarrow> Inl e
                 | Inr vs \<Rightarrow> Inr (trimPrefix (last (vsDecs v)) ''// name:'' # vs)))
      | _ \<Rightarrow> enumSpecs ss)"

fun enumDecls :: "string \<Rightarrow> genDecl list \<Rightarrow> error + string list" where
  "enumDecls fieldName [] = Inr []"
| "enumDecls fieldName (g # gs) =
     (if gdTok g \<noteq> TokCONST then enumDecls fieldName gs
      else if gdDecs g = [] then enumDecls fieldName gs
      else if trimPrefix (last (gdDecs g)) ''// '' \<noteq> fieldName then enumDecls fieldName gs
      else (case enumSpecs (gdSpecs g) of
              Inl e \<Rightarrow> Inl e
            | Inr vs \<Rightarrow> (case enumDecls fieldName gs of
                           Inl e \<Rightarrow> Inl e
                         | Inr ws \<Rightarrow> Inr (vs @ ws))))"

definition collectPartEnumInformation :: "node \<Rightarrow> string \<Rightarrow> error + string list" where
  "collectPartEnumInformation nd typeName =
     enumDecls (''name:'' @ afterLastDot typeName) (inspectGenDecls nd)"

section \<open>Documentation objects\<close>

record example =
  exName :: string
  exValue :: string

record docText =
  Comment :: string
  Description :: string
  Examples :: "example list"
  Values :: "string list"

record field =
  Name :: string
  Type :: string
  TypeRef :: string
  Text :: docText
  Tag :: string
  Note :: string
  EnumFields :: "string list"

datatype logmsg =
    MissingDocumentation expr
  | NoPackageFound string string
  | UnknownType expr

fun uncommentDecorationNode :: "string list \<Rightarrow> string" where
  \<comment> \<open>applied to the start decorations of the node\<close>
  "uncommentDecorationNode [] = []"
| "uncommentDecorationNode (part # parts) =
     (let trimmedLine = trimPrefix part ''//'' in
      if containsStr trimmedLine ''nolint:'' then uncommentDecorationNode parts
      else trimmedLine @ (if parts = [] then [] else [CHR 0x0A]) @ uncommentDecorationNode parts)"

text \<open>
  The environment: the store of type specifications that \<open>Ident.Obj.Decl\<close> points into,
  \<open>yaml.Unmarshal\<close>, and the three Unicode-aware functions of \<open>strings\<close>.
  \<open>yaml.Unmarshal\<close> writes into a \<open>*Text\<close>, where an element of \<open>Examples\<close> may be
  nil; it gives the text as the call leaves it, also when it fails, and whether it
  succeeded.
\<close>

record yamlText =
  yComment :: string
  yDescription :: string
  yExamples :: "example option list"
  yValues :: "string list"

record env =
  decls :: "typeSpec list"
  unmarshal :: "string \<Rightarrow> yamlText \<Rightarrow> yamlText \<times> bool"
  stringsToLower :: "string \<Rightarrow> string"
  stringsEqualFold :: "string \<Rightarrow> string \<Rightarrow> bool"
  stringsTrimSpace :: "string \<Rightarrow> string"

definition escape :: "env \<Rightarrow> string \<Rightarrow> string" where
  \<comment> \<open>quotes become backslash-quote, newlines become backslash-n, then \<open>TrimSpace\<close>\<close>
  "escape e v = stringsTrimSpace e (concat (map (\<lambda>c.
     if c = CHR 0x22 then [CHR 0x5C, CHR 0x22]
     else if c = CHR 0x0A then [CHR 0x5C, CHR ''n'']
     else [c]) v))"

fun escapeExamples :: "env \<Rightarrow> example option list \<Rightarrow> error + example list" where
  \<comment> \<open>the loop \<open>for _, example := range text.Examples\<close>: a nil example panics\<close>
  "escapeExamples e [] = Inr []"
| "escapeExamples e (None # xs) = Inl Panic"
| "escapeExamples e (Some x # xs) =
     (case escapeExamples e xs of
        Inl err \<Rightarrow> Inl err
      | Inr ys \<Rightarrow>
          Inr (\<lparr>exName = escape e (exName x), exValue = stringsTrimSpace e (exValue x)\<rparr> # ys))"

definition parseComment :: "env \<Rightarrow> string \<Rightarrow> error + docText" where
  \<comment> \<open>the text returned holds no nil example, so \<open>docText\<close> keeps the examples themselves\<close>
  "parseComment e comment =
     (let t0 = \<lparr>yComment = [], yDescription = [], yExamples = [], yValues = []\<rparr>;
          t1 = (case unmarshal e comment t0 of (t, ok) \<Rightarrow>
                  if \<not> ok then
                    (let t' = t\<lparr>yDescription := comment, yComment := hd (splitLines comment)\<rparr> in
                     case unmarshal e (joinLines (tl (splitLines comment))) t' of (t'', ok') \<Rightarrow>
                       if ok' then t''\<lparr>yDescription := yComment t''\<rparr> else t'')
                  else
                    (let d = stringsTrimSpace e (yDescription t) in
                     t\<lparr>yDescription := d, yComment := hd (splitLines d)\<rparr>))
      in case escapeExamples e (yExamples t1) of
           Inl err \<Rightarrow> Inl err
         | Inr exs \<Rightarrow>
             Inr \<lparr>Comment = yComment t1, Description = escape e (yDescription t1),
                  Examples = exs, Values = yValues t1\<rparr>)"

fun getFieldType :: "expr \<Rightarrow> string \<Rightarrow> bool \<Rightarrow> string" where
  "getFieldType (MapType k v) prefix apply = getFieldType v prefix False"
| "getFieldType (Ident n p ob) prefix apply =
     (if p \<noteq> [] then wrapStructName (pathBase p) n
      else if apply \<and> prefix \<noteq> [] then wrapStructName prefix n
      else n)"
| "getFieldType (ArrayType elt) prefix apply = getFieldType elt prefix False"
| "getFieldType (StarExpr x) prefix apply = getFieldType x prefix True"
| "getFieldType (SelectorExpr x sel) prefix apply = getFieldType sel prefix False"
| "getFieldType _ prefix apply = []"

fun formatFieldType :: "expr \<Rightarrow> string \<Rightarrow> bool \<Rightarrow> string \<times> logmsg list" where
  \<comment> \<open>the rendered type and the lines logged on the way\<close>
  "formatFieldType (MapType k v) prefix apply =
     (case formatFieldType k prefix False of (ks, l1) \<Rightarrow>
      case formatFieldType v prefix False of (vs, l2) \<Rightarrow>
        (''map['' @ ks @ '']'' @ vs, l1 @ l2))"
| "formatFieldType (Ident n p ob) prefix apply =
     (if p \<noteq> [] then (wrapStructName (pathBase p) n, [])
      else if apply \<and> prefix \<noteq> [] then (wrapStructName prefix n, [])
      else (n, []))"
| "formatFieldType (ArrayType elt) prefix apply =
     (case formatFieldType elt prefix False of (es, l) \<Rightarrow> (''[]'' @ es, l))"
| "formatFieldType (StructType fs) prefix apply = (''struct'', [])"
| "formatFieldType (StarExpr x) prefix apply = formatFieldType x prefix True"
| "formatFieldType (SelectorExpr x sel) prefix apply = formatFieldType sel prefix False"
| "formatFieldType InterfaceType prefix apply = (''interface{}'', [])"
| "formatFieldType t prefix apply = ([], [UnknownType t])"

section \<open>Request part definitions\<close>

fun partElts :: "expr list \<Rightarrow> error + example list" where
  "partElts [] = Inr []"
| "partElts (elt # elts) =
     (case elt of
        KeyValueExpr (BasicLit k) (BasicLit v) \<Rightarrow>
          (case partElts elts of
             Inl e \<Rightarrow> Inl e
           | Inr xs \<Rightarrow> Inr (\<lparr>exName = trimQuote k, exValue = trimQuote v\<rparr> # xs))
      | _ \<Rightarrow> Inl Panic)"

fun partSpecs :: "spec list \<Rightarrow> error + example list" where
  "partSpecs [] = Inr []"
| "partSpecs (s # ss) =
     (case s of
        ValueSpecS v \<Rightarrow>
          (if vsNames v = [] then partSpecs ss
           else if hd (vsNames v) \<noteq> ''RequestPartDefinitions'' then Inr []
           else (case vsValues v of
                   [] \<Rightarrow> Inl Panic
                 | CompositeLit elts # _ \<Rightarrow>
                     (case partElts elts of
                        Inl e \<Rightarrow> Inl e
                      | Inr xs \<Rightarrow> (case partSpecs ss of
                                     Inl e \<Rightarrow> Inl e
                                   | Inr ys \<Rightarrow> Inr (xs @ ys)))
                 | _ # _ \<Rightarrow> partSpecs ss))
      | _ \<Rightarrow> partSpecs ss)"

fun partDecls :: "genDecl list \<Rightarrow> error + example list" where
  "partDecls [] = Inr []"
| "partDecls (g # gs) =
     (if gdTok g \<noteq> TokVAR then partDecls gs
      else if gdDecs g = [] then partDecls gs
      else (case partSpecs (gdSpecs g) of
              Inl e \<Rightarrow> Inl e
            | Inr xs \<Rightarrow> (case partDecls gs of
                           Inl e \<Rightarrow> Inl e
                         | Inr ys \<Rightarrow> Inr (xs @ ys))))"

definition collectRequestPartDefinitions :: "node \<Rightarrow> error + example list" where
  "collectRequestPartDefinitions nd = partDecls (inspectGenDecls nd)"

section \<open>Type-graph resolution\<close>

datatype package = Package (Syntax: "genDecl list list") (Imports: "(string \<times> package) list")

record collectStructOptions =
  pkg :: package
  structName :: string
  optPackagePrefix :: string

record structType =
  nodeFields :: "dstField list"
  original :: node
  name :: string
  stText :: docText
  stFields :: "field list"
  packagePrefix :: string
  requestPartValues :: "example list"

text \<open>
  Of a \<open>structType\<close>, the struct node is kept as its field list; the package, which is
  never read back from it, is left out. The global \<open>uniqueStructures\<close> and the lines
  written to the log (one \<open>logmsg\<close> for each \<open>log.Printf\<close>) are the state threaded
  through every call. A call either fails or returns a value and the new state.
\<close>

record state =
  uniqueStructures :: "string set"
  logs :: "logmsg list"

type_synonym 'a run = "state \<Rightarrow> error + ('a \<times> state)"

type_synonym resolved = "structType option \<times> structType list"

definition declAt :: "env \<Rightarrow> nat \<Rightarrow> typeSpec option" where
  \<comment> \<open>\<open>t.Obj.Decl.(*dst.TypeSpec)\<close>: \<open>None\<close> where the assertion panics\<close>
  "declAt e a = (if a < length (decls e) then Some (decls e ! a) else None)"

text \<open>
  The functions below call each other through the type graph; the calls that re-enter
  \<open>parseStructuresFromDSTSpec\<close> and \<open>collectStructsWithOpts\<close> from a field go through
  a resolver, which \<open>resolve\<close> instantiates with one unit of fuel less.
\<close>

datatype call = ParseSpec typeSpec collectStructOptions | CollectWithOpts collectStructOptions

type_synonym resolver = "call \<Rightarrow> resolved run"

definition logLine :: "logmsg \<Rightarrow> state \<Rightarrow> state" where
  "logLine m st = st\<lparr>logs := logs st @ [m]\<rparr>"

definition markUnique :: "string \<Rightarrow> state \<Rightarrow> state" where
  \<comment> \<open>\<open>uniqueStructures[k] = struct{}{}\<close>\<close>
  "markUnique k st = st\<lparr>uniqueStructures := insert k (uniqueStructures st)\<rparr>"

definition identString :: "string \<Rightarrow> string \<Rightarrow> string" where
  \<comment> \<open>\<open>(*dst.Ident).String\<close>\<close>
  "identString n p = (if p \<noteq> [] then p @ ''.'' @ n else n)"

definition appendResolved :: "structType list \<Rightarrow> error + (resolved \<times> state) \<Rightarrow> error + (structType list \<times> state)" where
  \<comment> \<open>\<open>if main != nil { *results = append(*results, main) }; *results = append(*results, extra...)\<close>\<close>
  "appendResolved results res =
     (case res of
        Inl e \<Rightarrow> Inl e
      | Inr ((mainS, extra), st) \<Rightarrow>
          Inr (results @ (case mainS of None \<Rightarrow> [] | Some m \<Rightarrow> [m]) @ extra, st))"

fun collectUnresolvedExternalStructs ::
  "env \<Rightarrow> resolver \<Rightarrow> expr \<Rightarrow> structType list \<Rightarrow> collectStructOptions \<Rightarrow> structType list run" where
  "collectUnresolvedExternalStructs e r (MapType k v) results opts st =
     (case collectUnresolvedExternalStructs e r k results opts st of
        Inl err \<Rightarrow> Inl err
      | Inr (results1, st1) \<Rightarrow> collectUnresolvedExternalStructs e r v results1 opts st1)"
| "collectUnresolvedExternalStructs e r (Ident n p ob) results opts st =
     (case ob of
        Some obj \<Rightarrow>
          (case declAt e (objDecl obj) of
             None \<Rightarrow> Inl Panic
           | Some spec \<Rightarrow>
               (let structName =
                      (if optPackagePrefix opts \<noteq> []
                       then wrapStructName (optPackagePrefix opts) (objName obj)
                       else objName obj)
                in if structName \<in> uniqueStructures st then Inr (results, st)
                   else appendResolved results
                          (r (ParseSpec spec
                                \<lparr>pkg = pkg opts, structName = n,
                                 optPackagePrefix = optPackagePrefix opts\<rparr>)
                             (markUnique structName st))))
      | None \<Rightarrow>
          (if p \<noteq> [] then
             (let prefixSmallName = wrapStructName (pathBase p) n in
              if prefixSmallName \<in> uniqueStructures st then Inr (results, st)
              else (let st1 = markUnique prefixSmallName st in
                    if identString n p \<in> uniqueStructures st1 then Inr (results, st1)
                    else (let st2 = markUnique (identString n p) st1 in
                          case map_of (Imports (pkg opts)) p of
                            None \<Rightarrow> Inr (results, logLine (NoPackageFound (structName opts) p) st2)
                          | Some structPackage \<Rightarrow>
                              appendResolved results
                                (r (CollectWithOpts
                                      \<lparr>pkg = structPackage, structName = n,
                                       optPackagePrefix = pathBase p\<rparr>)
                                   st2))))
           else if n \<in> uniqueStructures st then Inr (results, st)
           else appendResolved results
                  (r (CollectWithOpts \<lparr>pkg = pkg opts, structName = n, optPackagePrefix = []\<rparr>)
                     (markUnique n st))))"
| "collectUnresolvedExternalStructs e r (ArrayType elt) results opts st =
     collectUnresolvedExternalStructs e r elt results opts st"
| "collectUnresolvedExternalStructs e r (StarExpr x) results opts st =
     collectUnresolvedExternalStructs e r x results opts st"
| "collectUnresolvedExternalStructs e r (SelectorExpr x sel) results opts st =
     collectUnresolvedExternalStructs e r sel results opts st"
| "collectUnresolvedExternalStructs e r _ results opts st = Inr (results, st)"

text \<open>
  One iteration of the loop of \<open>collectFields\<close> either goes on to the next field with the
  lists built so far, or leaves the function with its named results.
\<close>

datatype 'a flow = Next 'a | Return 'a

definition embeddedField ::
  "resolver \<Rightarrow> env \<Rightarrow> collectStructOptions \<Rightarrow> dstField \<Rightarrow> field list \<times> structType list
     \<Rightarrow> (field list \<times> structType list) flow run" where
  \<comment> \<open>the branch \<open>if len(f.Names) == 0\<close>\<close>
  "embeddedField r e opts f acc st =
     (case acc of (flds, found) \<Rightarrow>
      case fType f of
        Ident n p ob \<Rightarrow>
          (let splice = (\<lambda>res. case res of
                 Inl err \<Rightarrow> Inl err
               | Inr ((structure, extra), st') \<Rightarrow>
                   (case structure of
                      None \<Rightarrow> Inl Panic
                    | Some s' \<Rightarrow> Inr (Next (flds @ stFields s', found @ extra), st')))
           in if p \<noteq> [] then
                (case map_of (Imports (pkg opts)) p of
                   None \<Rightarrow> Inr (Return (flds, []), logLine (NoPackageFound (structName opts) p) st)
                 | Some structPackage \<Rightarrow>
                     splice (r (CollectWithOpts
                                  \<lparr>pkg = structPackage, structName = n,
                                   optPackagePrefix = pathBase p\<rparr>) st))
              else (case ob of
                      Some obj \<Rightarrow>
                        (case declAt e (objDecl obj) of
                           None \<Rightarrow> Inl Panic
                         | Some spec \<Rightarrow>
                             splice (r (ParseSpec spec
                                          \<lparr>pkg = pkg opts, structName = n,
                                           optPackagePrefix = optPackagePrefix opts\<rparr>) st))
                    | None \<Rightarrow> Inl Panic))
      | _ \<Rightarrow> Inr (Next acc, st))"

definition documentedField ::
  "env \<Rightarrow> resolver \<Rightarrow> structType \<Rightarrow> collectStructOptions \<Rightarrow> dstField \<Rightarrow> string \<Rightarrow> string
     \<Rightarrow> string list \<Rightarrow> field list \<times> structType list
     \<Rightarrow> (field list \<times> structType list) flow run" where
  \<comment> \<open>the loop body from \<open>if strings.Contains(documentation, "docgen:nodoc")\<close> on\<close>
  "documentedField e r s opts f documentation yamlTag enumFields acc st =
     (if containsStr documentation ''docgen:nodoc'' then Inr (Next acc, st)
      else if length (fNames f) = 0 then embeddedField r e opts f acc st
      else (let nm = hd (fNames f) in
        if nm = [] then Inl Panic
        else if \<not> isUpper (hd nm) then Inr (Next acc, st)
        else (case formatFieldType (fType f) (packagePrefix s) False of
                (fieldType, lg) \<Rightarrow>
          (let nm' = (if nm = [] then fieldType else nm);
               fieldTypeRef = getFieldType (fType f) (packagePrefix s) False
           in case collectUnresolvedExternalStructs e r (fType f) (snd acc) opts
                     (st\<lparr>logs := logs st @ lg\<rparr>) of
                Inl err \<Rightarrow> Inl err
              | Inr (found', st') \<Rightarrow>
                  (case parseComment e documentation of
                     Inl err \<Rightarrow> Inl err
                   | Inr txt \<Rightarrow>
                       Inr (Next (fst acc @
                              [\<lparr>Name = nm', Type = fieldType, TypeRef = fieldTypeRef,
                                Text = txt, Tag = yamlTag, Note = [],
                                EnumFields = enumFields\<rparr>],
                              found'), st'))))))"

definition fieldStep ::
  "env \<Rightarrow> resolver \<Rightarrow> structType \<Rightarrow> collectStructOptions \<Rightarrow> dstField
     \<Rightarrow> field list \<times> structType list \<Rightarrow> (field list \<times> structType list) flow run" where
  \<comment> \<open>the body of \<open>for _, f := range s.node.Fields.List\<close>\<close>
  "fieldStep e r s opts f acc st =
     (case fTag f of
        None \<Rightarrow> Inr (Next acc, st)
      | Some tag \<Rightarrow>
        if length (fNames f) < 1 then Inr (Next acc, st)
        else
          (let documentation = uncommentDecorationNode (fDecs f);
               mapping = tagGet tag ''mapping'';
               yamlTags = tagGet tag ''yaml'';
               yamlTag = beforeComma yamlTags
           in if mapping = [] then
                (if (yamlTag = [] \<or> yamlTag = ''-'') \<and> countComma yamlTags < 1
                 then Inr (Next acc, st)
                 else if documentation = []
                 then Inr (Next acc, logLine (MissingDocumentation (fType f)) st)
                 else documentedField e r s opts f documentation (stringsToLower e yamlTag) [] acc st)
              else
                (case fType f of
                   Ident n p ob \<Rightarrow>
                     (case collectPartEnumInformation (original s) n of
                        Inl err \<Rightarrow> Inl err
                      | Inr enumFields \<Rightarrow>
                          documentedField e r s opts f documentation yamlTag enumFields acc st)
                 | _ \<Rightarrow> Inr (Next acc, st))))"

fun fieldsLoop ::
  "env \<Rightarrow> resolver \<Rightarrow> structType \<Rightarrow> collectStructOptions \<Rightarrow> dstField list
     \<Rightarrow> field list \<times> structType list \<Rightarrow> (field list \<times> structType list) run" where
  "fieldsLoop e r s opts [] acc st = Inr (acc, st)"
| "fieldsLoop e r s opts (f # fs) acc st =
     (case fieldStep e r s opts f acc st of
        Inl err \<Rightarrow> Inl err
      | Inr (Next acc', st') \<Rightarrow> fieldsLoop e r s opts fs acc' st'
      | Inr (Return res, st') \<Rightarrow> Inr (res, st'))"

definition collectFields ::
  "env \<Rightarrow> resolver \<Rightarrow> structType \<Rightarrow> collectStructOptions \<Rightarrow> (field list \<times> structType list) run" where
  "collectFields e r s opts st = fieldsLoop e r s opts (nodeFields s) ([], []) st"

definition parseStructuresFromDSTSpec ::
  "env \<Rightarrow> resolver \<Rightarrow> node \<Rightarrow> node \<Rightarrow> spec \<Rightarrow> collectStructOptions \<Rightarrow> resolved run" where
  "parseStructuresFromDSTSpec e r nd orig sp opts st =
     (case sp of
        TypeSpecS t \<Rightarrow>
          (case tsType t of
             Some (StructType x) \<Rightarrow>
               (let gotStructName = tsName t in
                if \<not> stringsEqualFold e (structName opts) gotStructName then Inr ((None, []), st)
                else if gotStructName = [] then Inl Panic
                else if \<not> isUpper (hd gotStructName) then Inr ((None, []), st)
                else (case (if gotStructName = ''Request'' \<or> hasSuffix gotStructName ''.Request''
                            then collectRequestPartDefinitions orig else Inr []) of
                        Inl err \<Rightarrow> Inl err
                      | Inr partDefs \<Rightarrow>
                          (case parseComment e (uncommentDecorationNode (startDecs nd)) of
                             Inl err \<Rightarrow> Inl err
                           | Inr txt \<Rightarrow>
                               (let s = \<lparr>nodeFields = x, original = orig, name = gotStructName,
                                         stText = txt, stFields = [],
                                         packagePrefix = optPackagePrefix opts,
                                         requestPartValues = partDefs\<rparr>
                                in case collectFields e r s opts st of
                                     Inl err \<Rightarrow> Inl err
                                   | Inr ((flds, structures), st') \<Rightarrow>
                                       Inr ((Some (s\<lparr>stFields := flds\<rparr>), structures), st')))))
           | _ \<Rightarrow> Inr ((None, []), st))
      | _ \<Rightarrow> Inr ((None, []), st))"

definition addParsed :: "resolved \<Rightarrow> resolved \<Rightarrow> resolved" where
  \<comment> \<open>the first structure parsed is the main one, later ones and all extras are extras\<close>
  "addParsed acc pe =
     (case acc of (mainStruct, extras) \<Rightarrow>
      case pe of (parsed, extra) \<Rightarrow>
        (case parsed of
           None \<Rightarrow> (mainStruct, extras @ extra)
         | Some p \<Rightarrow>
             (case mainStruct of
                None \<Rightarrow> (Some p, extras @ extra)
              | Some m \<Rightarrow> (mainStruct, extras @ [p] @ extra))))"

fun specsLoop ::
  "env \<Rightarrow> resolver \<Rightarrow> genDecl \<Rightarrow> node \<Rightarrow> collectStructOptions \<Rightarrow> spec list \<Rightarrow> resolved
     \<Rightarrow> resolved run" where
  "specsLoop e r g nd opts [] acc st = Inr (acc, st)"
| "specsLoop e r g nd opts (sp # sps) acc st =
     (case parseStructuresFromDSTSpec e r (GenDeclNode g) nd sp opts st of
        Inl err \<Rightarrow> Inl err
      | Inr (pe, st') \<Rightarrow> specsLoop e r g nd opts sps (addParsed acc pe) st')"

fun declsLoop ::
  "env \<Rightarrow> resolver \<Rightarrow> node \<Rightarrow> collectStructOptions \<Rightarrow> genDecl list \<Rightarrow> resolved
     \<Rightarrow> resolved run" where
  "declsLoop e r nd opts [] acc st = Inr (acc, st)"
| "declsLoop e r nd opts (g # gs) acc st =
     (case specsLoop e r g nd opts (gdSpecs g) acc st of
        Inl err \<Rightarrow> Inl err
      | Inr (acc', st') \<Rightarrow> declsLoop e r nd opts gs acc' st')"

definition collectStructsFromDSTNode ::
  "env \<Rightarrow> resolver \<Rightarrow> node \<Rightarrow> collectStructOptions \<Rightarrow> resolved run" where
  "collectStructsFromDSTNode e r nd opts st = declsLoop e r nd opts (inspectGenDecls nd) (None, []) st"

fun filesLoop ::
  "env \<Rightarrow> resolver \<Rightarrow> collectStructOptions \<Rightarrow> genDecl list list \<Rightarrow> resolved \<Rightarrow> resolved run" where
  "filesLoop e r opts [] acc st = Inr (acc, st)"
| "filesLoop e r opts (file # files) acc st =
     (case collectStructsFromDSTNode e r (FileNode file) opts st of
        Inl err \<Rightarrow> Inl err
      | Inr (pe, st') \<Rightarrow> filesLoop e r opts files (addParsed acc pe) st')"

definition collectStructsWithOpts :: "env \<Rightarrow> resolver \<Rightarrow> collectStructOptions \<Rightarrow> resolved run" where
  "collectStructsWithOpts e r opts st = filesLoop e r opts (Syntax (pkg opts)) (None, []) st"

primrec resolve :: "env \<Rightarrow> nat \<Rightarrow> resolver" where
  "resolve e 0 = (\<lambda>c st. Inl OutOfFuel)"
| "resolve e (Suc k) = (\<lambda>c st.
     case c of
       ParseSpec spec opts \<Rightarrow>
         parseStructuresFromDSTSpec e (resolve e k) (TypeSpecNode spec) (TypeSpecNode spec)
           (TypeSpecS spec) opts st
     | CollectWithOpts opts \<Rightarrow> collectStructsWithOpts e (resolve e k) opts st)"

fun packagesLoop :: "env \<Rightarrow> nat \<Rightarrow> string \<Rightarrow> package list \<Rightarrow> structType list \<Rightarrow> structType list run" where
  \<comment> \<open>the loop \<open>for _, pkg := range pkgs\<close> of \<open>process\<close>\<close>
  "packagesLoop e k structure [] structures st = Inr (structures, st)"
| "packagesLoop e k structure (p # ps) structures st =
     (case appendResolved structures
             (collectStructsWithOpts e (resolve e k)
                \<lparr>pkg = p, structName = structure, optPackagePrefix = []\<rparr> st) of
        Inl err \<Rightarrow> Inl err
      | Inr (structures', st') \<Rightarrow> packagesLoop e k structure ps structures' st')"

section \<open>Synthesis of the documentation set\<close>

text \<open>
  \<open>Appearance.Struct\<close> points to the \<open>Struct\<close> built for the owning type; it is the
  position of that \<open>Struct\<close> in \<open>doc.Structs\<close>.
\<close>

record appearance =
  Struct :: nat
  FieldName :: string

record struct =
  sName :: string
  sPackagePrefix :: string
  sText :: docText
  Fields :: "field list"
  AppearsIn :: "appearance list"
  PartValues :: "example list"

record doc =
  docName :: string
  docPackage :: string
  docFile :: string
  Structs :: "struct list"

record flags =
  structureFlag :: string
  outputFlag :: string
  packageNameFlag :: string

definition GetName :: "struct \<Rightarrow> string" where
  "GetName s = wrapStructName (sPackagePrefix s) (sName s)"

definition newStruct :: "structType \<Rightarrow> struct" where
  "newStruct s = \<lparr>sName = name s, sPackagePrefix = packagePrefix s, sText = stText s,
                  Fields = stFields s, AppearsIn = [], PartValues = requestPartValues s\<rparr>"

definition entries :: "(string \<rightharpoonup> 'a list) \<Rightarrow> string \<Rightarrow> 'a list" where
  \<comment> \<open>reading a Go map of slices: a missing key reads as the nil slice\<close>
  "entries m k = (case m k of None \<Rightarrow> [] | Some xs \<Rightarrow> xs)"

type_synonym refMaps = "(string \<rightharpoonup> example list) \<times> (string \<rightharpoonup> appearance list)"

fun fieldRefs :: "nat \<Rightarrow> field list \<Rightarrow> refMaps \<Rightarrow> refMaps" where
  \<comment> \<open>the loop \<open>for _, field := range s.fields\<close>, for the struct at position \<open>i\<close>\<close>
  "fieldRefs i [] m = m"
| "fieldRefs i (f # fs) m =
     (if TypeRef f = [] then fieldRefs i fs m
      else (case m of (extraExamples, backReferences) \<Rightarrow>
        fieldRefs i fs
          (if length (Examples (Text f)) > 0
           then extraExamples(TypeRef f \<mapsto> entries extraExamples (TypeRef f) @ Examples (Text f))
           else extraExamples,
           backReferences(TypeRef f \<mapsto>
             entries backReferences (TypeRef f) @ [\<lparr>Struct = i, FieldName = Tag f\<rparr>]))))"

fun structsLoop :: "structType list \<Rightarrow> struct list \<Rightarrow> refMaps \<Rightarrow> struct list \<times> refMaps" where
  \<comment> \<open>the loop \<open>for _, s := range structures\<close>\<close>
  "structsLoop [] structs m = (structs, m)"
| "structsLoop (s # ss) structs m =
     structsLoop ss (structs @ [newStruct s]) (fieldRefs (length structs) (stFields s) m)"

definition backfill :: "refMaps \<Rightarrow> struct \<Rightarrow> struct" where
  \<comment> \<open>the body of \<open>for _, s := range doc.Structs\<close>\<close>
  "backfill m s =
     (case m of (extraExamples, backReferences) \<Rightarrow>
        s\<lparr>sText := (case extraExamples (GetName s) of
                      Some extra \<Rightarrow> (sText s)\<lparr>Examples := Examples (sText s) @ extra\<rparr>
                    | None \<Rightarrow> sText s),
          AppearsIn := (case backReferences (GetName s) of
                          Some ref \<Rightarrow> AppearsIn s @ ref
                        | None \<Rightarrow> AppearsIn s)\<rparr>)"

definition synthesize :: "flags \<Rightarrow> structType list \<Rightarrow> doc" where
  "synthesize fl structures =
     (case structsLoop structures [] (Map.empty, Map.empty) of (structs, m) \<Rightarrow>
        \<lparr>docName = structureFlag fl, docPackage = packageNameFlag fl, docFile = outputFlag fl,
         Structs = map (backfill m) structs\<rparr>)"

definition process :: "env \<Rightarrow> nat \<Rightarrow> flags \<Rightarrow> package list \<Rightarrow> doc run" where
  \<comment> \<open>up to the call of \<open>render\<close>; \<open>log.Fatalf\<close> is the error \<open>Fatal\<close>\<close>
  "process e k fl pkgs st =
     (case packagesLoop e k (structureFlag fl) pkgs [] st of
        Inl err \<Rightarrow> Inl err
      | Inr (structures, st') \<Rightarrow>
          if length structures = 0 then Inl Fatal else Inr (synthesize fl structures, st'))"

section \<open>Reading the enum values off the syntax tree\<close>








section \<open>The dedup set under a resolver\<close>

definition growing :: "resolver \<Rightarrow> bool" where
  "growing r = (\<forall>c st x st'. r c st = Inr (x, st') \<longrightarrow> uniqueStructures st \<subseteq> uniqueStructures st')"

text \<open>
  A resolver extends another when it returns every result that the other returns: more
  fuel never changes a result, it only turns \<open>OutOfFuel\<close> into one.
\<close>

definition extends :: "resolver \<Rightarrow> resolver \<Rightarrow> bool" where
  "extends r r' = (\<forall>c st x. r c st = Inr x \<longrightarrow> r' c st = Inr x)"

section \<open>Example inputs\<close>

definition st0 :: state where
  "st0 = \<lparr>uniqueStructures = {}, logs = []\<rparr>"

definition plainText :: "string \<Rightarrow> yamlText \<Rightarrow> yamlText \<times> bool" where
  \<comment> \<open>no comment of the examples is YAML: the call fails and leaves the text as it was\<close>
  "plainText c t = (t, False)"

definition asciiEnv :: "typeSpec list \<Rightarrow> env" where
  "asciiEnv ds = \<lparr>decls = ds, unmarshal = plainText, stringsToLower = asciiToLower,
                  stringsEqualFold = asciiEqualFold, stringsTrimSpace = asciiTrimSpace\<rparr>"

definition docFlags :: "string \<Rightarrow> flags" where
  "docFlags root = \<lparr>structureFlag = root, outputFlag = ''docs.go'', packageNameFlag = ''main''\<rparr>"

definition typeDecl :: "string list \<Rightarrow> typeSpec \<Rightarrow> genDecl" where
  "typeDecl decs t = \<lparr>gdTok = TokTYPE, gdDecs = decs, gdSpecs = [TypeSpecS t]\<rparr>"

definition rootOpts :: "package \<Rightarrow> string \<Rightarrow> collectStructOptions" where
  "rootOpts p root = \<lparr>pkg = p, structName = root, optPackagePrefix = []\<rparr>"

text \<open>type Node struct { Next *Node `yaml:"next"` }, documented\<close>

definition nodeSpec :: typeSpec where
  "nodeSpec = \<lparr>tsName = ''Node'',
     tsType = Some (StructType
       [DstField [''Next''] (StarExpr (Ident ''Node'' [] (Some (Object ''Node'' 0))))
          (Some [(''yaml'', ''next'')]) [''// Next is the following node'']]),
     tsDecs = []\<rparr>"

definition nodeEnv :: env where
  "nodeEnv = asciiEnv [nodeSpec]"

definition nodePkg :: package where
  "nodePkg = Package [[typeDecl [''// Node is an element of a list''] nodeSpec]] []"

text \<open>Job and InternalOptions of examples/types.go, cut to two fields\<close>

definition internalOptionsSpec :: typeSpec where
  "internalOptionsSpec = \<lparr>tsName = ''InternalOptions'',
     tsType = Some (StructType
       [DstField [''BulkSize''] (Ident ''int'' [] None)
          (Some [(''yaml'', ''bulk-size''), (''json'', ''bulk-size'')])
          [''// BulkSize is the number of items to process per node at once.'']]),
     tsDecs = []\<rparr>"

definition jobSpec :: typeSpec where
  "jobSpec = \<lparr>tsName = ''Job'',
     tsType = Some (StructType
       [DstField [''Name''] (Ident ''string'' [] None)
          (Some [(''yaml'', ''name''), (''json'', ''name'')]) [''// Name of the Job''],
        DstField [''InternalOptions'']
          (StarExpr (Ident ''InternalOptions'' [] (Some (Object ''InternalOptions'' 1))))
          (Some [(''yaml'', ''internal-options''), (''json'', ''internal-options'')])
          [''// InternalOptions contains internal configuration options for scheduler'']]),
     tsDecs = []\<rparr>"

definition jobEnv :: env where
  "jobEnv = asciiEnv [jobSpec, internalOptionsSpec]"

definition jobPkg :: package where
  "jobPkg = Package
     [[typeDecl [''// Job is a single job to be executed by apollo.''] jobSpec,
       typeDecl [''// InternalOptions contains internal configuration options for scheduler'']
         internalOptionsSpec]] []"

text \<open>type Config struct { Base `yaml:",inline"`; Port int `yaml:"port"` }\<close>

definition baseSpec :: typeSpec where
  "baseSpec = \<lparr>tsName = ''Base'',
     tsType = Some (StructType
       [DstField [''Name''] (Ident ''string'' [] None)
          (Some [(''yaml'', ''name'')]) [''// Name of the configuration'']]),
     tsDecs = []\<rparr>"

definition embeddedBase :: dstField where
  "embeddedBase = DstField [] (Ident ''Base'' [] (Some (Object ''Base'' 1)))
     (Some [(''yaml'', '',inline'')]) [''// Base holds the common options'']"

definition configSpec :: typeSpec where
  "configSpec = \<lparr>tsName = ''Config'',
     tsType = Some (StructType
       [embeddedBase,
        DstField [''Port''] (Ident ''int'' [] None)
          (Some [(''yaml'', ''port'')]) [''// Port to listen on'']]),
     tsDecs = []\<rparr>"

definition configEnv :: env where
  "configEnv = asciiEnv [configSpec, baseSpec]"

definition configPkg :: package where
  "configPkg = Package
     [[typeDecl [''// Config is the configuration''] configSpec,
       typeDecl [''// Base holds the common options''] baseSpec]] []"

text \<open>type Registry struct { Items map[Key]string `yaml:"items"` }, type Key struct { ID string `yaml:"id"` }\<close>

definition keySpec :: typeSpec where
  "keySpec = \<lparr>tsName = ''Key'',
     tsType = Some (StructType
       [DstField [''ID''] (Ident ''string'' [] None)
          (Some [(''yaml'', ''id'')]) [''// ID of the key'']]),
     tsDecs = []\<rparr>"

definition itemsType :: expr where
  "itemsType = MapType (Ident ''Key'' [] (Some (Object ''Key'' 1))) (Ident ''string'' [] None)"

definition itemsField :: dstField where
  "itemsField = DstField [''Items''] itemsType (Some [(''yaml'', ''items'')]) [''// Items by key'']"

definition registrySpec :: typeSpec where
  "registrySpec = \<lparr>tsName = ''Registry'', tsType = Some (StructType [itemsField]), tsDecs = []\<rparr>"

definition registryEnv :: env where
  "registryEnv = asciiEnv [registrySpec, keySpec]"

definition registryPkg :: package where
  "registryPkg = Package
     [[typeDecl [''// Registry maps keys to names''] registrySpec,
       typeDecl [''// Key identifies an item''] keySpec]] []"

definition structOf :: "string \<Rightarrow> node \<Rightarrow> dstField list \<Rightarrow> structType" where
  "structOf nm orig fs =
     \<lparr>nodeFields = fs, original = orig, name = nm,
      stText = \<lparr>Comment = [], Description = [], Examples = [], Values = []\<rparr>,
      stFields = [], packagePrefix = [], requestPartValues = []\<rparr>"

text \<open>Port int, with the tag and the leading comment lines given\<close>

definition portField :: "string \<Rightarrow> string list \<Rightarrow> dstField" where
  "portField yamlTags decs = DstField [''Port''] (Ident ''int'' [] None) (Some [(''yaml'', yamlTags)]) decs"











text \<open>
  package main: type Root struct { Thing other.Thing `yaml:"thing"` };
  package other: type Thing struct { Ptr *Part `yaml:"ptr"`; Plain Part `yaml:"plain"` }
  and type Part struct { ID string `yaml:"id"` }
\<close>

definition partSpec :: typeSpec where
  "partSpec = \<lparr>tsName = ''Part'',
     tsType = Some (StructType
       [DstField [''ID''] (Ident ''string'' [] None)
          (Some [(''yaml'', ''id'')]) [''// ID of the part'']]),
     tsDecs = []\<rparr>"

definition thingSpec :: typeSpec where
  "thingSpec = \<lparr>tsName = ''Thing'',
     tsType = Some (StructType
       [DstField [''Ptr''] (StarExpr (Ident ''Part'' [] (Some (Object ''Part'' 2))))
          (Some [(''yaml'', ''ptr'')]) [''// Ptr points to a part''],
        DstField [''Plain''] (Ident ''Part'' [] (Some (Object ''Part'' 2)))
          (Some [(''yaml'', ''plain'')]) [''// Plain holds a part'']]),
     tsDecs = []\<rparr>"

definition rootSpec :: typeSpec where
  "rootSpec = \<lparr>tsName = ''Root'',
     tsType = Some (StructType
       [DstField [''Thing''] (Ident ''Thing'' ''example.com/other'' None)
          (Some [(''yaml'', ''thing'')]) [''// Thing of the other package'']]),
     tsDecs = []\<rparr>"

definition otherPkg :: package where
  "otherPkg = Package
     [[typeDecl [''// Thing has two parts''] thingSpec,
       typeDecl [''// Part is a part of a thing''] partSpec]] []"

definition rootPkg :: package where
  "rootPkg = Package [[typeDecl [''// Root is the entry point''] rootSpec]]
               [(''example.com/other'', otherPkg)]"

definition rootEnv :: env where
  "rootEnv = asciiEnv [rootSpec, thingSpec, partSpec]"

text \<open>The structures of Job and InternalOptions, the latter with an example of its own\<close>

definition bulkSizeExample :: example where
  "bulkSizeExample = \<lparr>exName = ''bulk-size'', exValue = ''10000''\<rparr>"

definition plainDoc :: "string \<Rightarrow> example list \<Rightarrow> docText" where
  "plainDoc d exs = \<lparr>Comment = d, Description = d, Examples = exs, Values = []\<rparr>"

definition internalOptionsField :: field where
  "internalOptionsField =
     \<lparr>Name = ''InternalOptions'', Type = ''InternalOptions'', TypeRef = ''InternalOptions'',
      Text = plainDoc ''InternalOptions contains internal configuration options for scheduler'' [],
      Tag = ''internal-options'', Note = [], EnumFields = []\<rparr>"

definition bulkSizeField :: field where
  "bulkSizeField =
     \<lparr>Name = ''BulkSize'', Type = ''int'', TypeRef = ''int'',
      Text = plainDoc ''BulkSize is the number of items to process per node at once.'' [],
      Tag = ''bulk-size'', Note = [], EnumFields = []\<rparr>"

definition jobStructures :: "structType list" where
  "jobStructures =
     [(structOf ''Job'' (FileNode []) [])
        \<lparr>stText := plainDoc ''Job is a single job to be executed by apollo.'' [],
         stFields := [internalOptionsField]\<rparr>,
      (structOf ''InternalOptions'' (FileNode []) [])
        \<lparr>stText := plainDoc ''InternalOptions contains internal configuration options for scheduler''
                    [bulkSizeExample],
         stFields := [bulkSizeField]\<rparr>]"

definition seeded :: state where
  "seeded = \<lparr>uniqueStructures = {''InternalOptions''}, logs = []\<rparr>"

text \<open>A marked group whose only constant carries the leading comment lines given\<close>

definition keyConstGroup :: "string list \<Rightarrow> node" where
  "keyConstGroup decs = FileNode
     [\<lparr>gdTok = TokCONST, gdDecs = [''// name:Key''],
       gdSpecs = [ValueSpecS \<lparr>vsNames = [''DNS''], vsValues = [], vsDecs = decs\<rparr>]\<rparr>]"

section \<open>Auxiliary lemmas: synthesis\<close>

lemma entries_upd: "entries (m(k \<mapsto> v)) k' = (if k' = k then v else entries m k')"
  by (simp add: entries_def)

lemma entries_empty: "entries Map.empty k = []"
  by (simp add: entries_def)

lemma fieldRefs_backReferences:
  "entries (snd (fieldRefs i fs m)) k =
     entries (snd m) k @
     map (\<lambda>f. \<lparr>Struct = i, FieldName = Tag f\<rparr>) (filter (\<lambda>f. TypeRef f \<noteq> [] \<and> TypeRef f = k) fs)"
  by (induction fs arbitrary: m) (auto simp: entries_upd split: prod.splits)

lemma fieldRefs_extraExamples:
  "entries (fst (fieldRefs i fs m)) k =
     entries (fst m) k @
     concat (map (\<lambda>f. Examples (Text f)) (filter (\<lambda>f. TypeRef f \<noteq> [] \<and> TypeRef f = k) fs))"
  by (induction fs arbitrary: m) (auto simp: entries_upd split: prod.splits)

lemma structsLoop_structs: "fst (structsLoop ss structs m) = structs @ map newStruct ss"
  by (induction ss arbitrary: structs m) auto

lemma structsLoop_backReferences:
  "entries (snd (snd (structsLoop ss structs m))) k =
     entries (snd m) k @
     concat (map (\<lambda>(i, s). map (\<lambda>f. \<lparr>Struct = i, FieldName = Tag f\<rparr>)
                    (filter (\<lambda>f. TypeRef f \<noteq> [] \<and> TypeRef f = k) (stFields s)))
              (enumerate (length structs) ss))"
  by (induction ss arbitrary: structs m) (auto simp: fieldRefs_backReferences)

lemma structsLoop_extraExamples:
  "entries (fst (snd (structsLoop ss structs m))) k =
     entries (fst m) k @
     concat (map (\<lambda>s. concat (map (\<lambda>f. Examples (Text f))
                    (filter (\<lambda>f. TypeRef f \<noteq> [] \<and> TypeRef f = k) (stFields s)))) ss)"
  by (induction ss arbitrary: structs m) (auto simp: fieldRefs_extraExamples)

lemma backfill_AppearsIn: "AppearsIn (backfill m s) = AppearsIn s @ entries (snd m) (GetName s)"
  by (auto simp: backfill_def entries_def split: prod.splits option.splits)

lemma backfill_Examples:
  "Examples (sText (backfill m s)) = Examples (sText s) @ entries (fst m) (GetName s)"
  by (auto simp: backfill_def entries_def split: prod.splits option.splits)

lemma backfill_Fields: "Fields (backfill m s) = Fields s"
  by (auto simp: backfill_def split: prod.splits option.splits)

lemma GetName_newStruct: "GetName (newStruct s) = wrapStructName (packagePrefix s) (name s)"
  by (simp add: GetName_def newStruct_def)

lemma newStruct_sel:
  "AppearsIn (newStruct s) = []" "Fields (newStruct s) = stFields s" "sText (newStruct s) = stText s"
  by (simp_all add: newStruct_def)

lemma Structs_synthesize:
  "Structs (synthesize fl ss) =
     map (backfill (snd (structsLoop ss [] (Map.empty, Map.empty)))) (map newStruct ss)"
  using structsLoop_structs [of ss "[]" "(Map.empty, Map.empty)"]
  by (auto simp: synthesize_def split: prod.splits)

lemma fieldRefs_referenced:
  "fieldRefs i (filter (\<lambda>f. TypeRef f \<noteq> []) fs) m = fieldRefs i fs m"
  by (induction fs arbitrary: m) (auto split: prod.splits)

lemma structsLoop_referenced:
  "length structs = length structs'
   \<Longrightarrow> snd (structsLoop (map (\<lambda>s. s\<lparr>stFields := filter (\<lambda>f. TypeRef f \<noteq> []) (stFields s)\<rparr>) ss)
              structs m)
       = snd (structsLoop ss structs' m)"
  by (induction ss arbitrary: structs structs' m) (simp_all add: fieldRefs_referenced)

lemma synthesize_AppearsIn:
  "map AppearsIn (Structs (synthesize fl ss)) =
     map (\<lambda>t. concat (map (\<lambda>(i, s). map (\<lambda>f. \<lparr>Struct = i, FieldName = Tag f\<rparr>)
                  (filter (\<lambda>f. TypeRef f \<noteq> [] \<and> TypeRef f = wrapStructName (packagePrefix t) (name t))
                     (stFields s)))
            (enumerate 0 ss))) ss
   \<and> snd (structsLoop (map (\<lambda>s. s\<lparr>stFields := filter (\<lambda>f. TypeRef f \<noteq> []) (stFields s)\<rparr>) ss)
            [] (Map.empty, Map.empty))
     = snd (structsLoop ss [] (Map.empty, Map.empty))"
  using structsLoop_backReferences [of ss "[]" "(Map.empty, Map.empty)"]
    structsLoop_referenced [of "[]" "[]" ss "(Map.empty, Map.empty)"]
  by (simp add: Structs_synthesize backfill_AppearsIn GetName_newStruct entries_empty newStruct_sel)

section \<open>Auxiliary lemmas: enum groups\<close>









section \<open>Auxiliary lemmas: the dedup set only grows\<close>

lemma growingD: "growing r \<Longrightarrow> r c st = Inr (x, st') \<Longrightarrow> uniqueStructures st \<subseteq> uniqueStructures st'"
  unfolding growing_def by blast

lemma uniqueStructures_markUnique [simp]:
  "uniqueStructures (markUnique k st) = insert k (uniqueStructures st)"
  by (simp add: markUnique_def)

lemma uniqueStructures_logLine [simp]: "uniqueStructures (logLine m st) = uniqueStructures st"
  by (simp add: logLine_def)

lemma appendResolved_Inr:
  "appendResolved results x = Inr (res, st') \<Longrightarrow> \<exists>y. x = Inr (y, st')"
  by (auto simp: appendResolved_def split: sum.splits prod.splits)

lemma appendResolved_grows:
  assumes "growing r" and "appendResolved results (r c st1) = Inr (res, st')"
  shows "uniqueStructures st1 \<subseteq> uniqueStructures st'"
  using assms appendResolved_Inr growingD by blast

lemma collectUnresolved_grows:
  "growing r \<Longrightarrow> collectUnresolvedExternalStructs e r t results opts st = Inr (res, st')
   \<Longrightarrow> uniqueStructures st \<subseteq> uniqueStructures st'"
proof (induction e r t results opts st arbitrary: res st' rule: collectUnresolvedExternalStructs.induct)
  case (1 e r k v results opts st)
  from "1.prems"(2) obtain r1 s1 where
    k: "collectUnresolvedExternalStructs e r k results opts st = Inr (r1, s1)"
    and v: "collectUnresolvedExternalStructs e r v r1 opts s1 = Inr (res, st')"
    by (auto split: sum.splits)
  from "1.IH"(1) [OF "1.prems"(1) k] "1.IH"(2) [OF k refl "1.prems"(1) v] show ?case by blast
next
  case (2 e r n p ob results opts st)
  note g = appendResolved_grows [OF "2.prems"(1)]
  show ?case
  proof (cases ob)
    case (Some obj)
    with "2.prems"(2) show ?thesis
      by (auto simp: Let_def split: option.splits if_splits dest!: g)
  next
    case None
    with "2.prems"(2) show ?thesis
      by (auto simp: Let_def split: option.splits if_splits dest!: g)
  qed
qed (auto)

lemma embeddedField_grows:
  "growing r \<Longrightarrow> embeddedField r e opts f acc st = Inr (fl, st')
   \<Longrightarrow> uniqueStructures st \<subseteq> uniqueStructures st'"
  by (auto simp: embeddedField_def Let_def
           split: prod.splits expr.splits if_splits option.splits sum.splits
           dest: growingD)

lemma documentedField_grows:
  assumes "growing r"
    and "documentedField e r s opts f documentation yamlTag enumFields acc st = Inr (fl, st')"
  shows "uniqueStructures st \<subseteq> uniqueStructures st'"
proof -
  obtain fieldType lg where ft: "formatFieldType (fType f) (packagePrefix s) False = (fieldType, lg)"
    by (cases "formatFieldType (fType f) (packagePrefix s) False")
  from assms(2) ft
  consider "st' = st" | "embeddedField r e opts f acc st = Inr (fl, st')"
    | found' where "collectUnresolvedExternalStructs e r (fType f) (snd acc) opts
                      (st\<lparr>logs := logs st @ lg\<rparr>) = Inr (found', st')"
    by (auto simp: documentedField_def Let_def simp del: collectUnresolvedExternalStructs.simps
             split: if_splits sum.splits)
  then show ?thesis
  proof cases
    case 1
    then show ?thesis by simp
  next
    case 2
    then show ?thesis using embeddedField_grows [OF assms(1)] by blast
  next
    case 3
    from collectUnresolved_grows [OF assms(1) this] show ?thesis by simp
  qed
qed

lemma fieldStep_grows:
  assumes "growing r" and "fieldStep e r s opts f acc st = Inr (fl, st')"
  shows "uniqueStructures st \<subseteq> uniqueStructures st'"
proof -
  from assms(2)
  consider "st' = st" | "st' = logLine (MissingDocumentation (fType f)) st"
    | documentation yamlTag enumFields where
        "documentedField e r s opts f documentation yamlTag enumFields acc st = Inr (fl, st')"
    by (auto simp: fieldStep_def Let_def
             split: option.splits if_splits expr.splits sum.splits)
  then show ?thesis
  proof cases
    case 1
    then show ?thesis by simp
  next
    case 2
    then show ?thesis by simp
  next
    case 3
    from documentedField_grows [OF assms(1) this] show ?thesis .
  qed
qed

lemma fieldsLoop_grows:
  "growing r \<Longrightarrow> fieldsLoop e r s opts fs acc st = Inr (res, st')
   \<Longrightarrow> uniqueStructures st \<subseteq> uniqueStructures st'"
proof (induction fs arbitrary: acc st)
  case Nil
  then show ?case by simp
next
  case (Cons f fs)
  from Cons.prems(2) obtain fl s1 where
    step: "fieldStep e r s opts f acc st = Inr (fl, s1)"
    by (auto split: sum.splits)
  note g1 = fieldStep_grows [OF Cons.prems(1) step]
  show ?case
  proof (cases fl)
    case (Next acc')
    with Cons.prems(2) step have "fieldsLoop e r s opts fs acc' s1 = Inr (res, st')" by simp
    from Cons.IH [OF Cons.prems(1) this] g1 show ?thesis by blast
  next
    case (Return x)
    with Cons.prems(2) step g1 show ?thesis by simp
  qed
qed

lemma parseStructures_grows:
  "growing r \<Longrightarrow> parseStructuresFromDSTSpec e r nd orig sp opts st = Inr (res, st')
   \<Longrightarrow> uniqueStructures st \<subseteq> uniqueStructures st'"
  by (auto simp: parseStructuresFromDSTSpec_def collectFields_def Let_def
           split: spec.splits option.splits expr.splits if_splits sum.splits prod.splits
           dest: fieldsLoop_grows)

lemma specsLoop_grows:
  "growing r \<Longrightarrow> specsLoop e r g nd opts sps acc st = Inr (res, st')
   \<Longrightarrow> uniqueStructures st \<subseteq> uniqueStructures st'"
proof (induction sps arbitrary: acc st)
  case Nil
  then show ?case by simp
next
  case (Cons sp sps)
  from Cons.prems(2) obtain pe s1 where
    p: "parseStructuresFromDSTSpec e r (GenDeclNode g) nd sp opts st = Inr (pe, s1)"
    and l: "specsLoop e r g nd opts sps (addParsed acc pe) s1 = Inr (res, st')"
    by (auto split: sum.splits)
  from parseStructures_grows [OF Cons.prems(1) p] Cons.IH [OF Cons.prems(1) l]
  show ?case by blast
qed

lemma declsLoop_grows:
  "growing r \<Longrightarrow> declsLoop e r nd opts gs acc st = Inr (res, st')
   \<Longrightarrow> uniqueStructures st \<subseteq> uniqueStructures st'"
proof (induction gs arbitrary: acc st)
  case Nil
  then show ?case by simp
next
  case (Cons g gs)
  from Cons.prems(2) obtain a1 s1 where
    p: "specsLoop e r g nd opts (gdSpecs g) acc st = Inr (a1, s1)"
    and l: "declsLoop e r nd opts gs a1 s1 = Inr (res, st')"
    by (auto split: sum.splits)
  from specsLoop_grows [OF Cons.prems(1) p] Cons.IH [OF Cons.prems(1) l]
  show ?case by blast
qed

lemma filesLoop_grows:
  "growing r \<Longrightarrow> filesLoop e r opts files acc st = Inr (res, st')
   \<Longrightarrow> uniqueStructures st \<subseteq> uniqueStructures st'"
proof (induction files arbitrary: acc st)
  case Nil
  then show ?case by simp
next
  case (Cons gds files)
  from Cons.prems(2) obtain pe s1 where
    p: "declsLoop e r (FileNode gds) opts gds (None, []) st = Inr (pe, s1)"
    and l: "filesLoop e r opts files (addParsed acc pe) s1 = Inr (res, st')"
    by (auto simp: collectStructsFromDSTNode_def split: sum.splits)
  from declsLoop_grows [OF Cons.prems(1) p] Cons.IH [OF Cons.prems(1) l]
  show ?case by blast
qed

lemma collectStructsWithOpts_grows:
  "growing r \<Longrightarrow> collectStructsWithOpts e r opts st = Inr (res, st')
   \<Longrightarrow> uniqueStructures st \<subseteq> uniqueStructures st'"
  by (auto simp: collectStructsWithOpts_def dest: filesLoop_grows)

lemma resolve_growing: "growing (resolve e k)"
proof (induction k)
  case 0
  show ?case by (simp add: growing_def)
next
  case (Suc k)
  show ?case
    unfolding growing_def
  proof (intro allI impI)
    fix c st x st'
    assume a: "resolve e (Suc k) c st = Inr (x, st')"
    show "uniqueStructures st \<subseteq> uniqueStructures st'"
    proof (cases c)
      case (ParseSpec spec opts)
      with a show ?thesis by (auto dest: parseStructures_grows [OF Suc])
    next
      case (CollectWithOpts opts)
      with a show ?thesis by (auto dest: collectStructsWithOpts_grows [OF Suc])
    qed
  qed
qed

lemma packagesLoop_grows:
  "packagesLoop e k nm ps structures st = Inr (res, st')
   \<Longrightarrow> uniqueStructures st \<subseteq> uniqueStructures st'"
proof (induction ps arbitrary: structures st)
  case Nil
  then show ?case by simp
next
  case (Cons p ps)
  from Cons.prems obtain s1 r1 where
    a: "appendResolved structures
          (collectStructsWithOpts e (resolve e k)
             \<lparr>pkg = p, structName = nm, optPackagePrefix = []\<rparr> st) = Inr (r1, s1)"
    and l: "packagesLoop e k nm ps r1 s1 = Inr (res, st')"
    by (auto split: sum.splits)
  from appendResolved_Inr [OF a] obtain y where
    "collectStructsWithOpts e (resolve e k)
       \<lparr>pkg = p, structName = nm, optPackagePrefix = []\<rparr> st = Inr (y, s1)" by blast
  from collectStructsWithOpts_grows [OF resolve_growing this] Cons.IH [OF l]
  show ?case by blast
qed

section \<open>Auxiliary lemmas: more fuel keeps a result\<close>

lemma extendsD: "extends r r' \<Longrightarrow> r c st = Inr x \<Longrightarrow> r' c st = Inr x"
  unfolding extends_def by blast

lemma appendResolved_extends:
  "extends r r' \<Longrightarrow> appendResolved results (r c st) = Inr x
   \<Longrightarrow> appendResolved results (r' c st) = Inr x"
  by (cases "r c st") (auto simp: appendResolved_def dest: extendsD)

lemma collectUnresolved_extends:
  "extends r r' \<Longrightarrow> collectUnresolvedExternalStructs e r t results opts st = Inr x
   \<Longrightarrow> collectUnresolvedExternalStructs e r' t results opts st = Inr x"
proof (induction e r t results opts st arbitrary: x rule: collectUnresolvedExternalStructs.induct)
  case (1 e r k v results opts st)
  from "1.prems"(2) obtain r1 s1 where
    k: "collectUnresolvedExternalStructs e r k results opts st = Inr (r1, s1)"
    and v: "collectUnresolvedExternalStructs e r v r1 opts s1 = Inr x"
    by (auto split: sum.splits)
  from "1.IH"(1) [OF "1.prems"(1) k] "1.IH"(2) [OF k refl "1.prems"(1) v]
  show ?case by simp
next
  case (2 e r n p ob results opts st)
  note a = appendResolved_extends [OF "2.prems"(1)]
  from "2.prems"(2) show ?case
    by (auto simp: Let_def split: option.splits if_splits intro: a)
qed (auto)

lemma embeddedField_extends:
  "extends r r' \<Longrightarrow> embeddedField r e opts f acc st = Inr x
   \<Longrightarrow> embeddedField r' e opts f acc st = Inr x"
  by (auto simp: embeddedField_def Let_def
           split: prod.splits expr.splits if_splits option.splits sum.splits
           dest: extendsD)

lemma documentedField_extends:
  assumes "extends r r'"
    and "documentedField e r s opts f documentation yamlTag enumFields acc st = Inr x"
  shows "documentedField e r' s opts f documentation yamlTag enumFields acc st = Inr x"
proof -
  obtain fieldType lg where ft: "formatFieldType (fType f) (packagePrefix s) False = (fieldType, lg)"
    by (cases "formatFieldType (fType f) (packagePrefix s) False")
  show ?thesis
  proof (cases "collectUnresolvedExternalStructs e r (fType f) (snd acc) opts
                  (st\<lparr>logs := logs st @ lg\<rparr>)")
    case (Inl err)
    with assms ft show ?thesis
      by (auto simp: documentedField_def Let_def simp del: collectUnresolvedExternalStructs.simps
               split: if_splits dest: embeddedField_extends)
  next
    case (Inr y)
    from collectUnresolved_extends [OF assms(1) Inr] Inr assms ft show ?thesis
      by (auto simp: documentedField_def Let_def simp del: collectUnresolvedExternalStructs.simps
               split: if_splits dest: embeddedField_extends)
  qed
qed

lemma fieldStep_extends:
  "extends r r' \<Longrightarrow> fieldStep e r s opts f acc st = Inr x
   \<Longrightarrow> fieldStep e r' s opts f acc st = Inr x"
  by (auto simp: fieldStep_def Let_def
           split: option.splits if_splits expr.splits sum.splits
           dest: documentedField_extends)

lemma fieldsLoop_extends:
  "extends r r' \<Longrightarrow> fieldsLoop e r s opts fs acc st = Inr x
   \<Longrightarrow> fieldsLoop e r' s opts fs acc st = Inr x"
proof (induction fs arbitrary: acc st)
  case Nil
  then show ?case by simp
next
  case (Cons f fs)
  from Cons.prems(2) obtain fl s1 where
    step: "fieldStep e r s opts f acc st = Inr (fl, s1)"
    by (auto split: sum.splits)
  note step' = fieldStep_extends [OF Cons.prems(1) step]
  show ?case
  proof (cases fl)
    case (Next acc')
    with Cons.prems(2) step have "fieldsLoop e r s opts fs acc' s1 = Inr x" by simp
    from Cons.IH [OF Cons.prems(1) this] step' Next show ?thesis by simp
  next
    case (Return y)
    with Cons.prems(2) step step' show ?thesis by simp
  qed
qed

lemma parseStructures_extends:
  "extends r r' \<Longrightarrow> parseStructuresFromDSTSpec e r nd orig sp opts st = Inr x
   \<Longrightarrow> parseStructuresFromDSTSpec e r' nd orig sp opts st = Inr x"
  by (auto simp: parseStructuresFromDSTSpec_def collectFields_def Let_def
           split: spec.splits option.splits expr.splits if_splits sum.splits prod.splits
           dest: fieldsLoop_extends)

lemma specsLoop_extends:
  "extends r r' \<Longrightarrow> specsLoop e r g nd opts sps acc st = Inr x
   \<Longrightarrow> specsLoop e r' g nd opts sps acc st = Inr x"
proof (induction sps arbitrary: acc st)
  case Nil
  then show ?case by simp
next
  case (Cons sp sps)
  from Cons.prems(2) obtain pe s1 where
    p: "parseStructuresFromDSTSpec e r (GenDeclNode g) nd sp opts st = Inr (pe, s1)"
    and l: "specsLoop e r g nd opts sps (addParsed acc pe) s1 = Inr x"
    by (auto split: sum.splits)
  from parseStructures_extends [OF Cons.prems(1) p] Cons.IH [OF Cons.prems(1) l]
  show ?case by simp
qed

lemma declsLoop_extends:
  "extends r r' \<Longrightarrow> declsLoop e r nd opts gs acc st = Inr x
   \<Longrightarrow> declsLoop e r' nd opts gs acc st = Inr x"
proof (induction gs arbitrary: acc st)
  case Nil
  then show ?case by simp
next
  case (Cons g gs)
  from Cons.prems(2) obtain a1 s1 where
    p: "specsLoop e r g nd opts (gdSpecs g) acc st = Inr (a1, s1)"
    and l: "declsLoop e r nd opts gs a1 s1 = Inr x"
    by (auto split: sum.splits)
  from specsLoop_extends [OF Cons.prems(1) p] Cons.IH [OF Cons.prems(1) l]
  show ?case by simp
qed

lemma filesLoop_extends:
  "extends r r' \<Longrightarrow> filesLoop e r opts files acc st = Inr x
   \<Longrightarrow> filesLoop e r' opts files acc st = Inr x"
proof (induction files arbitrary: acc st)
  case Nil
  then show ?case by simp
next
  case (Cons gds files)
  from Cons.prems(2) obtain pe s1 where
    p: "declsLoop e r (FileNode gds) opts gds (None, []) st = Inr (pe, s1)"
    and l: "filesLoop e r opts files (addParsed acc pe) s1 = Inr x"
    by (auto simp: collectStructsFromDSTNode_def split: sum.splits)
  from declsLoop_extends [OF Cons.prems(1) p] Cons.IH [OF Cons.prems(1) l]
  show ?case by (simp add: collectStructsFromDSTNode_def)
qed

lemma collectStructsWithOpts_extends:
  "extends r r' \<Longrightarrow> collectStructsWithOpts e r opts st = Inr x
   \<Longrightarrow> collectStructsWithOpts e r' opts st = Inr x"
  by (auto simp: collectStructsWithOpts_def dest: filesLoop_extends)

lemma resolve_Suc_extends: "extends (resolve e k) (resolve e (Suc k))"
proof (induction k)
  case 0
  show ?case by (simp add: extends_def)
next
  case (Suc k)
  show ?case
    unfolding extends_def
  proof (intro allI impI)
    fix c st x
    assume a: "resolve e (Suc k) c st = Inr x"
    show "resolve e (Suc (Suc k)) c st = Inr x"
    proof (cases c)
      case (ParseSpec spec opts)
      with a parseStructures_extends [OF Suc] show ?thesis by auto
    next
      case (CollectWithOpts opts)
      with a collectStructsWithOpts_extends [OF Suc] show ?thesis by auto
    qed
  qed
qed

lemma extends_trans: "extends r r' \<Longrightarrow> extends r' r'' \<Longrightarrow> extends r r''"
  unfolding extends_def by blast

lemma resolve_add_extends: "extends (resolve e k) (resolve e (k + j))"
proof (induction j)
  case 0
  show ?case by (simp add: extends_def)
next
  case (Suc j)
  from extends_trans [OF Suc resolve_Suc_extends] show ?case by simp
qed

lemma packagesLoop_more_fuel:
  "packagesLoop e k nm ps structures st = Inr x
   \<Longrightarrow> packagesLoop e (k + j) nm ps structures st = Inr x"
proof (induction ps arbitrary: structures st)
  case Nil
  then show ?case by simp
next
  case (Cons p ps)
  from Cons.prems obtain s1 r1 where
    a: "appendResolved structures
          (collectStructsWithOpts e (resolve e k)
             \<lparr>pkg = p, structName = nm, optPackagePrefix = []\<rparr> st) = Inr (r1, s1)"
    and l: "packagesLoop e k nm ps r1 s1 = Inr x"
    by (auto split: sum.splits)
  from a obtain y where
    c: "collectStructsWithOpts e (resolve e k)
          \<lparr>pkg = p, structName = nm, optPackagePrefix = []\<rparr> st = Inr y"
    by (auto simp: appendResolved_def split: sum.splits)
  from collectStructsWithOpts_extends [OF resolve_add_extends c]
  have "collectStructsWithOpts e (resolve e (k + j))
          \<lparr>pkg = p, structName = nm, optPackagePrefix = []\<rparr> st = Inr y" .
  with a c Cons.IH [OF l] show ?case by simp
qed

lemma process_more_fuel:
  "process e k fl pkgs st = Inr x \<Longrightarrow> process e (k + j) fl pkgs st = Inr x"
  by (auto simp: process_def split: sum.splits if_splits dest: packagesLoop_more_fuel [where j = j])

section \<open>Deduplication of the resolved set\<close>

text \<open>
  C1. The resolved set is claimed to hold no two entries with the same qualified name, each
  struct type being resolved at most once, also on cyclic type graphs. The root type is
  parsed without being recorded in \<open>uniqueStructures\<close>: for a root \<open>Node\<close> with a field
  of type \<open>*Node\<close> the field resolves \<open>Node\<close> a second time, and the documentation set
  holds two entries named \<open>Node\<close>, with any fuel that lets the pass return.
\<close>

theorem self_referential_root_resolved_twice:
  "(case process nodeEnv (Suc j) (docFlags ''Node'') [nodePkg] st0 of
      Inl e \<Rightarrow> None
    | Inr (d, st) \<Rightarrow> Some (map GetName (Structs d))) = Some [''Node'', ''Node'']"
proof -
  have base: "(case process nodeEnv 1 (docFlags ''Node'') [nodePkg] st0 of
                 Inl e \<Rightarrow> None
               | Inr (d, st) \<Rightarrow> Some (map GetName (Structs d))) = Some [''Node'', ''Node'']"
    by code_simp
  then obtain x where x: "process nodeEnv 1 (docFlags ''Node'') [nodePkg] st0 = Inr x"
    by (cases "process nodeEnv 1 (docFlags ''Node'') [nodePkg] st0") auto
  from process_more_fuel [OF x, of j]
  have "process nodeEnv (Suc j) (docFlags ''Node'') [nodePkg] st0 = Inr x" by simp
  with base x show ?thesis by simp
qed

section \<open>Embedded fields\<close>

text \<open>
  C2. The fields of an embedded type are claimed to be spliced, in order, into the field
  list of the parent, and the embedded type to be resolved as an entry of its own.
  \<open>Config\<close> embeds \<open>Base\<close>, whose field \<open>Name\<close> is documented, and has the field
  \<open>Port\<close>. The resolved set holds \<open>Config\<close> alone, and its only field is \<open>Port\<close>,
  with any fuel that lets the pass return: the loop of \<open>collectFields\<close> leaves a field
  without names before it reaches the branch that splices.
\<close>

theorem embedded_type_neither_spliced_nor_resolved:
  "(case process configEnv (Suc j) (docFlags ''Config'') [configPkg] st0 of
      Inl e \<Rightarrow> None
    | Inr (d, st) \<Rightarrow> Some (map (\<lambda>s. (GetName s, map Name (Fields s))) (Structs d)))
   = Some [(''Config'', [''Port''])]"
proof -
  have base: "(case process configEnv 1 (docFlags ''Config'') [configPkg] st0 of
                 Inl e \<Rightarrow> None
               | Inr (d, st) \<Rightarrow> Some (map (\<lambda>s. (GetName s, map Name (Fields s))) (Structs d)))
              = Some [(''Config'', [''Port''])]"
    by code_simp
  then obtain x where x: "process configEnv 1 (docFlags ''Config'') [configPkg] st0 = Inr x"
    by (cases "process configEnv 1 (docFlags ''Config'') [configPkg] st0") auto
  from process_more_fuel [OF x, of j]
  have "process configEnv (Suc j) (docFlags ''Config'') [configPkg] st0 = Inr x" by simp
  with base x show ?thesis by simp
qed

section \<open>Map types\<close>

text \<open>
  C3 (amended). For every documented field whose declared type is a map, the type reference
  follows the value type only and the rendered type is \<open>map[Key]Value\<close>; the discovery
  of further structs traverses the key type first and the value type after it.
\<close>

theorem map_field_resolution:
  assumes "fType f = MapType k v"
    and "fTag f = Some tag" and "tagGet tag ''mapping'' = []"
    and "\<not> ((beforeComma (tagGet tag ''yaml'') = [] \<or> beforeComma (tagGet tag ''yaml'') = ''-'')
            \<and> countComma (tagGet tag ''yaml'') < 1)"
    and "uncommentDecorationNode (fDecs f) \<noteq> []"
    and "\<not> containsStr (uncommentDecorationNode (fDecs f)) ''docgen:nodoc''"
    and "fNames f = nm # nms" and "nm \<noteq> []" and "isUpper (hd nm)"
  shows "fieldStep e r s opts f (flds, found) st =
     (case collectUnresolvedExternalStructs e r k found opts
             (st\<lparr>logs := logs st @ snd (formatFieldType (MapType k v) (packagePrefix s) False)\<rparr>) of
        Inl err \<Rightarrow> Inl err
      | Inr (found1, st1) \<Rightarrow>
          (case collectUnresolvedExternalStructs e r v found1 opts st1 of
             Inl err \<Rightarrow> Inl err
           | Inr (found', st') \<Rightarrow>
               (case parseComment e (uncommentDecorationNode (fDecs f)) of
                  Inl err \<Rightarrow> Inl err
                | Inr txt \<Rightarrow>
                    Inr (Next (flds @
                           [\<lparr>Name = nm,
                             Type = ''map['' @ fst (formatFieldType k (packagePrefix s) False) @ '']''
                                      @ fst (formatFieldType v (packagePrefix s) False),
                             TypeRef = getFieldType v (packagePrefix s) False,
                             Text = txt,
                             Tag = stringsToLower e (beforeComma (tagGet tag ''yaml'')), Note = [],
                             EnumFields = []\<rparr>],
                           found'), st'))))"
proof -
  have d: "fieldStep e r s opts f (flds, found) st =
      documentedField e r s opts f (uncommentDecorationNode (fDecs f))
        (stringsToLower e (beforeComma (tagGet tag ''yaml''))) [] (flds, found) st"
    using assms(2-5,7) by (auto simp add: fieldStep_def Let_def)
  obtain ks l1 where k: "formatFieldType k (packagePrefix s) False = (ks, l1)"
    by (cases "formatFieldType k (packagePrefix s) False")
  obtain vs l2 where v: "formatFieldType v (packagePrefix s) False = (vs, l2)"
    by (cases "formatFieldType v (packagePrefix s) False")
  show ?thesis
    unfolding d using assms(1,6-9) k v
    by (simp add: documentedField_def Let_def split: sum.splits prod.splits)
qed

theorem map_field_resolution_witness:
  "(case fieldStep registryEnv (resolve registryEnv 5) (structOf ''Registry'' (FileNode []) [])
            (rootOpts registryPkg ''Registry'') itemsField ([], []) st0 of
      Inr (Next (flds, found), st) \<Rightarrow> Some (map (\<lambda>x. (Type x, TypeRef x)) flds, map name found)
    | _ \<Rightarrow> None) = Some ([(''map[Key]string'', ''string'')], [''Key''])"
proof -
  let ?tag = "[(''yaml'', ''items'')]"
  let ?k = "Ident ''Key'' [] (Some (Object ''Key'' 1))"
  let ?v = "Ident ''string'' [] None"
  have h1: "fType itemsField = MapType ?k ?v" by (simp add: itemsField_def itemsType_def)
  have h2: "fTag itemsField = Some ?tag" by (simp add: itemsField_def)
  have h3: "tagGet ?tag ''mapping'' = []" by (simp add: tagGet_def)
  have h4: "\<not> ((beforeComma (tagGet ?tag ''yaml'') = [] \<or> beforeComma (tagGet ?tag ''yaml'') = ''-'')
               \<and> countComma (tagGet ?tag ''yaml'') < 1)"
    by (simp add: tagGet_def beforeComma_def)
  have h5: "uncommentDecorationNode (fDecs itemsField) \<noteq> []"
    by (simp add: itemsField_def trimPrefix_def)
  have h6: "\<not> containsStr (uncommentDecorationNode (fDecs itemsField)) ''docgen:nodoc''"
    by code_simp
  have h7: "fNames itemsField = ''Items'' # []" by (simp add: itemsField_def)
  have h8: "''Items'' \<noteq> []" by simp
  have h9: "isUpper (hd ''Items'')" by (simp add: isUpper_def)
  note eq = map_field_resolution [OF h1 h2 h3 h4 h5 h6 h7 h8 h9,
      of registryEnv "resolve registryEnv 5" "structOf ''Registry'' (FileNode []) []"
         "rootOpts registryPkg ''Registry''" "[]" "[]" st0]
  show ?thesis unfolding eq by code_simp
qed

text \<open>
  C3 as stated fails: for the field \<open>Items map[Key]string\<close>, discovery resolves the
  struct \<open>Key\<close>, which occurs as the key type only.
\<close>

theorem map_key_type_resolved:
  "(case collectUnresolvedExternalStructs registryEnv (resolve registryEnv 5) itemsType []
            (rootOpts registryPkg ''Registry'') st0 of
      Inl e \<Rightarrow> None
    | Inr (found, st) \<Rightarrow> Some (map name found)) = Some [''Key'']"
  by code_simp

section \<open>Mapping fields and enum values\<close>




section \<open>Examples and appearances\<close>

text \<open>
  C5 (amended). The examples of every field with a non-empty type reference are appended,
  in the order of the resolved set, to the examples of the type that the reference names;
  the fields of every type, with their examples, are left as they were.
\<close>

theorem examples_flow_to_referenced_type:
  "map (\<lambda>t. Examples (sText t)) (Structs (synthesize fl ss)) =
     map (\<lambda>t. Examples (stText t) @
            concat (map (\<lambda>s. concat (map (\<lambda>f. Examples (Text f))
                      (filter (\<lambda>f. TypeRef f \<noteq> [] \<and> TypeRef f = wrapStructName (packagePrefix t) (name t))
                         (stFields s)))) ss)) ss
   \<and> map Fields (Structs (synthesize fl ss)) = map stFields ss"
  using structsLoop_extraExamples [of ss "[]" "(Map.empty, Map.empty)"]
  by (simp add: Structs_synthesize backfill_Examples backfill_Fields GetName_newStruct
        entries_empty newStruct_sel)

text \<open>
  C5 as stated fails: \<open>InternalOptions\<close> carries the example \<open>bulk-size: 10000\<close>, and
  after synthesis the field \<open>internal-options\<close> of \<open>Job\<close>, which refers to it, carries
  no example.
\<close>

theorem type_examples_not_copied_to_field:
  "map (\<lambda>s. (GetName s, Examples (sText s), map (\<lambda>f. (Tag f, TypeRef f, Examples (Text f))) (Fields s)))
       (Structs (synthesize (docFlags ''Job'') jobStructures))
   = [(''Job'', [], [(''internal-options'', ''InternalOptions'', [])]),
      (''InternalOptions'', [bulkSizeExample], [(''bulk-size'', ''int'', [])])]"
  by code_simp

text \<open>
  C6. After synthesis, every field with a non-empty type reference is claimed to have
  exactly one appearance recorded against the type it refers to. \<open>getFieldType\<close> puts
  the prefix of the package before a local type only under a pointer, while the name of
  the resolved entry always carries it. In the package \<open>other\<close>, the fields \<open>ptr\<close> of
  type \<open>*Part\<close> and \<open>plain\<close> of type \<open>Part\<close> refer to the same entry \<open>other.Part\<close>:
  the type reference of \<open>plain\<close> is \<open>Part\<close>, and \<open>other.Part\<close> appears in \<open>ptr\<close>
  alone, with any fuel that lets the pass return.
\<close>

theorem appearance_missing_for_value_field:
  "(case process rootEnv (3 + j) (docFlags ''Root'') [rootPkg] st0 of
      Inl e \<Rightarrow> None
    | Inr (d, st) \<Rightarrow>
        Some (map (\<lambda>s. (GetName s, map (\<lambda>f. (Tag f, TypeRef f)) (Fields s), AppearsIn s))
                (Structs d)))
   = Some [(''Root'', [(''thing'', ''other.Thing'')], []),
           (''other.Thing'', [(''ptr'', ''other.Part''), (''plain'', ''Part'')],
            [\<lparr>Struct = 0, FieldName = ''thing''\<rparr>]),
           (''other.Part'', [(''id'', ''string'')], [\<lparr>Struct = 1, FieldName = ''ptr''\<rparr>])]"
proof -
  have base: "(case process rootEnv 3 (docFlags ''Root'') [rootPkg] st0 of
      Inl e \<Rightarrow> None
    | Inr (d, st) \<Rightarrow>
        Some (map (\<lambda>s. (GetName s, map (\<lambda>f. (Tag f, TypeRef f)) (Fields s), AppearsIn s))
                (Structs d)))
   = Some [(''Root'', [(''thing'', ''other.Thing'')], []),
           (''other.Thing'', [(''ptr'', ''other.Part''), (''plain'', ''Part'')],
            [\<lparr>Struct = 0, FieldName = ''thing''\<rparr>]),
           (''other.Part'', [(''id'', ''string'')], [\<lparr>Struct = 1, FieldName = ''ptr''\<rparr>])]"
    by code_simp
  then obtain x where x: "process rootEnv 3 (docFlags ''Root'') [rootPkg] st0 = Inr x"
    by (cases "process rootEnv 3 (docFlags ''Root'') [rootPkg] st0") auto
  from process_more_fuel [OF x, of j]
  have "process rootEnv (3 + j) (docFlags ''Root'') [rootPkg] st0 = Inr x" .
  with base x show ?thesis by simp
qed

section \<open>The dedup set across passes\<close>

text \<open>
  C7 (amended). The dedup set is not reset or scoped per pass: a resolution pass only adds
  names to it, so that every name in the set before a pass is in the set after it, and a
  reference to a local type whose qualified name is already in the set is skipped without
  resolving the type again.
\<close>

theorem dedup_set_never_reset:
  "(packagesLoop e k nm ps structures st = Inr (res, st')
      \<longrightarrow> uniqueStructures st \<subseteq> uniqueStructures st')
   \<and> (declAt e (objDecl obj) = Some spec
        \<and> wrapStructName (optPackagePrefix opts) (objName obj) \<in> uniqueStructures st
      \<longrightarrow> collectUnresolvedExternalStructs e r (Ident n p (Some obj)) results opts st
            = Inr (results, st))"
  using packagesLoop_grows [of e k nm ps structures st res st']
  by (auto simp: wrapStructName_def)

theorem dedup_set_never_reset_witness:
  "(case packagesLoop jobEnv 5 ''Job'' [jobPkg] [] seeded of
      Inl err \<Rightarrow> False
    | Inr (res, st') \<Rightarrow> uniqueStructures seeded \<subseteq> uniqueStructures st')
   \<and> collectUnresolvedExternalStructs jobEnv (resolve jobEnv 5)
        (Ident ''InternalOptions'' [] (Some (Object ''InternalOptions'' 1))) []
        (rootOpts jobPkg ''Job'') seeded = Inr ([], seeded)"
proof -
  have ok: "(case packagesLoop jobEnv 5 ''Job'' [jobPkg] [] seeded of
               Inl err \<Rightarrow> False | Inr x \<Rightarrow> True)"
    by code_simp
  have d: "declAt jobEnv (objDecl (Object ''InternalOptions'' 1)) = Some internalOptionsSpec"
    by (simp add: declAt_def jobEnv_def asciiEnv_def)
  have m: "wrapStructName (optPackagePrefix (rootOpts jobPkg ''Job''))
             (objName (Object ''InternalOptions'' 1)) \<in> uniqueStructures seeded"
    by (simp add: wrapStructName_def rootOpts_def seeded_def)
  show ?thesis
  proof (cases "packagesLoop jobEnv 5 ''Job'' [jobPkg] [] seeded")
    case (Inl err)
    with ok show ?thesis by simp
  next
    case (Inr x)
    obtain res st' where x: "x = (res, st')" by (cases x)
    from dedup_set_never_reset [of jobEnv 5 "''Job''" "[jobPkg]" "[]" seeded res st'
        "Object ''InternalOptions'' 1" internalOptionsSpec "rootOpts jobPkg ''Job''"
        "resolve jobEnv 5" "''InternalOptions''" "[]" "[]"] Inr x d m
    show ?thesis by simp
  qed
qed

text \<open>
  C7 as stated fails: a first pass for \<open>Job\<close> from the empty set resolves \<open>Job\<close> and
  \<open>InternalOptions\<close>; a second pass, run on the set that the first one left, resolves
  \<open>Job\<close> alone.
\<close>

theorem second_pass_differs:
  "(case packagesLoop jobEnv 5 ''Job'' [jobPkg] [] st0 of
      Inl e \<Rightarrow> None
    | Inr (first, st1) \<Rightarrow>
        (case packagesLoop jobEnv 5 ''Job'' [jobPkg] [] st1 of
           Inl e \<Rightarrow> None
         | Inr (second, st2) \<Rightarrow> Some (map name first, map name second)))
   = Some ([''Job'', ''InternalOptions''], [''Job''])"
  by code_simp

section \<open>Fields without documentation\<close>

text \<open>
  C8. A named field that is not a mapping field, whose yaml tag passes the tag check and
  which has no leading documentation text, adds no Field and no structure; one line is
  logged for it, and the loop goes on with the fields that follow.
\<close>

theorem undocumented_field_skipped:
  assumes "fTag f = Some tag" and "fNames f \<noteq> []" and "tagGet tag ''mapping'' = []"
    and "\<not> ((beforeComma (tagGet tag ''yaml'') = [] \<or> beforeComma (tagGet tag ''yaml'') = ''-'')
            \<and> countComma (tagGet tag ''yaml'') < 1)"
    and "uncommentDecorationNode (fDecs f) = []"
  shows "fieldStep e r s opts f acc st =
           Inr (Next acc, st\<lparr>logs := logs st @ [MissingDocumentation (fType f)]\<rparr>)
       \<and> fieldsLoop e r s opts (f # fs) acc st =
           fieldsLoop e r s opts fs acc (st\<lparr>logs := logs st @ [MissingDocumentation (fType f)]\<rparr>)"
proof -
  have step: "fieldStep e r s opts f acc st =
                Inr (Next acc, st\<lparr>logs := logs st @ [MissingDocumentation (fType f)]\<rparr>)"
    using assms by (auto simp add: fieldStep_def logLine_def Let_def)
  then show ?thesis by simp
qed

theorem undocumented_field_skipped_witness:
  "fDecs (portField ''port'' []) = []
   \<and> fieldsLoop configEnv (resolve configEnv 5) (structOf ''Config'' (FileNode []) [])
       (rootOpts configPkg ''Config'') [portField ''port'' []] ([], []) st0
     = Inr (([], []), st0\<lparr>logs := [MissingDocumentation (Ident ''int'' [] None)]\<rparr>)"
proof -
  have h1: "fTag (portField ''port'' []) = Some [(''yaml'', ''port'')]" by (simp add: portField_def)
  have h2: "fNames (portField ''port'' []) \<noteq> []" by (simp add: portField_def)
  have h3: "tagGet [(''yaml'', ''port'')] ''mapping'' = []" by (simp add: tagGet_def)
  have h4: "\<not> ((beforeComma (tagGet [(''yaml'', ''port'')] ''yaml'') = []
                \<or> beforeComma (tagGet [(''yaml'', ''port'')] ''yaml'') = ''-'')
               \<and> countComma (tagGet [(''yaml'', ''port'')] ''yaml'') < 1)"
    by (simp add: tagGet_def beforeComma_def)
  have h5: "uncommentDecorationNode (fDecs (portField ''port'' [])) = []" by (simp add: portField_def)
  have t: "fType (portField ''port'' []) = Ident ''int'' [] None" by (simp add: portField_def)
  from undocumented_field_skipped [OF h1 h2 h3 h4 h5, of configEnv "resolve configEnv 5"
      "structOf ''Config'' (FileNode []) []" "rootOpts configPkg ''Config''" "([], [])" st0 "[]"]
  show ?thesis by (simp add: t st0_def portField_def)
qed

section \<open>Ignored tags\<close>

text \<open>
  C9 (amended). A field that is not a mapping field, whose yaml tag has an empty primary
  key or the primary key \<open>-\<close> and holds no comma, is skipped and adds no Field.
\<close>

theorem ignored_tag_skipped:
  assumes "fTag f = Some tag" and "tagGet tag ''mapping'' = []"
    and "beforeComma (tagGet tag ''yaml'') = [] \<or> beforeComma (tagGet tag ''yaml'') = ''-''"
    and "countComma (tagGet tag ''yaml'') = 0"
  shows "fieldStep e r s opts f acc st = Inr (Next acc, st)"
  using assms by (auto simp add: fieldStep_def Let_def)

theorem ignored_tag_skipped_witness:
  "fieldStep configEnv (resolve configEnv 5) (structOf ''Config'' (FileNode []) [])
     (rootOpts configPkg ''Config'') (portField ''-'' [''// Port to listen on'']) ([], []) st0
   = Inr (Next ([], []), st0)"
proof -
  have h1: "fTag (portField ''-'' [''// Port to listen on'']) = Some [(''yaml'', ''-'')]"
    by (simp add: portField_def)
  have h2: "tagGet [(''yaml'', ''-'')] ''mapping'' = []" by (simp add: tagGet_def)
  have h3: "beforeComma (tagGet [(''yaml'', ''-'')] ''yaml'') = []
            \<or> beforeComma (tagGet [(''yaml'', ''-'')] ''yaml'') = ''-''"
    by (simp add: tagGet_def beforeComma_def)
  have h4: "countComma (tagGet [(''yaml'', ''-'')] ''yaml'') = 0"
    by (simp add: tagGet_def countComma_def)
  from ignored_tag_skipped [OF h1 h2 h3 h4] show ?thesis .
qed

text \<open>
  C9 as stated fails: with the tag \<open>yaml:",omitempty"\<close> the primary key is empty, and the
  documented field \<open>Port\<close> still yields a Field, whose tag is empty.
\<close>

theorem empty_key_with_options_kept:
  "(case fieldStep configEnv (resolve configEnv 5) (structOf ''Config'' (FileNode []) [])
            (rootOpts configPkg ''Config'') (portField '',omitempty'' [''// Port to listen on''])
            ([], []) st0 of
      Inr (Next (flds, found), st) \<Rightarrow> Some (map (\<lambda>x. (Name x, Tag x)) flds)
    | _ \<Rightarrow> None) = Some [(''Port'', [])]"
  by code_simp

section \<open>Enum-group collection on a constant without a comment\<close>

text \<open>
  C10. Enum-group collection is claimed never to panic. On a constant group marked
  \<open>// name:Key\<close> whose constant \<open>DNS\<close> has no leading comment line, the extraction
  indexes the last of zero comment lines and panics.
\<close>

theorem collectPartEnumInformation_panics:
  "collectPartEnumInformation (keyConstGroup []) ''Key'' = Inl Panic"
  by (simp add: collectPartEnumInformation_def keyConstGroup_def afterLastDot_def trimPrefix_def)

end
